theory Spec2Isabelle
  imports Main
begin

section \<open>Compiler options\<close>

text \<open>
  The option keys are the keyword constants that \<^verbatim>\<open>basilisp/lang/compiler/__init__.py\<close>
  imports from the analyzer and the generator. They are pairwise distinct keywords,
  modelled as the constructors of an enumeration.
\<close>

datatype opt_name =
    GENERATE_AUTO_INLINES
  | INLINE_FUNCTIONS
  | WARN_ON_SHADOWED_NAME
  | WARN_ON_SHADOWED_VAR
  | WARN_ON_UNUSED_NAMES
  | WARN_ON_NON_DYNAMIC_SET
  | USE_VAR_INDIRECTION
  | WARN_ON_VAR_INDIRECTION

type_synonym CompilerOpts = "opt_name \<rightharpoonup> bool"

text \<open>
  Python's \<^verbatim>\<open>a or b\<close> for \<^verbatim>\<open>a : Optional[bool]\<close> and \<^verbatim>\<open>b : bool\<close>: the
  left operand when it is truthy (only \<^verbatim>\<open>True\<close> is; \<^verbatim>\<open>None\<close> and \<^verbatim>\<open>False\<close>
  are falsy), the right operand otherwise.
\<close>

fun py_or :: "bool option \<Rightarrow> bool \<Rightarrow> bool" where
  "py_or (Some True) b = True"
| "py_or (Some False) b = b"
| "py_or None b = b"

text \<open>The eight keyword parameters of \<^verbatim>\<open>compiler_opts\<close>, each defaulting to \<^verbatim>\<open>None\<close>.\<close>

record opts_args =
  generate_auto_inlines :: "bool option"
  inline_functions :: "bool option"
  warn_on_shadowed_name :: "bool option"
  warn_on_shadowed_var :: "bool option"
  warn_on_unused_names :: "bool option"
  warn_on_non_dynamic_set :: "bool option"
  use_var_indirection :: "bool option"
  warn_on_var_indirection :: "bool option"

definition no_overrides :: opts_args where
  "no_overrides = \<lparr>generate_auto_inlines = None, inline_functions = None,
     warn_on_shadowed_name = None, warn_on_shadowed_var = None,
     warn_on_unused_names = None, warn_on_non_dynamic_set = None,
     use_var_indirection = None, warn_on_var_indirection = None\<rparr>"

text \<open>
  \<^verbatim>\<open>compiler_opts\<close>: the dictionary literal, built key by key in source order, handed
  to \<^verbatim>\<open>lmap.map\<close>.
\<close>

definition compiler_opts :: "opts_args \<Rightarrow> CompilerOpts" where
  "compiler_opts a = Map.empty
     (GENERATE_AUTO_INLINES \<mapsto> py_or (generate_auto_inlines a) True,
      INLINE_FUNCTIONS \<mapsto> py_or (inline_functions a) True,
      WARN_ON_SHADOWED_NAME \<mapsto> py_or (warn_on_shadowed_name a) False,
      WARN_ON_SHADOWED_VAR \<mapsto> py_or (warn_on_shadowed_var a) False,
      WARN_ON_UNUSED_NAMES \<mapsto> py_or (warn_on_unused_names a) True,
      WARN_ON_NON_DYNAMIC_SET \<mapsto> py_or (warn_on_non_dynamic_set a) True,
      USE_VAR_INDIRECTION \<mapsto> py_or (use_var_indirection a) False,
      WARN_ON_VAR_INDIRECTION \<mapsto> py_or (warn_on_var_indirection a) True)"

text \<open>Passing one keyword argument: the named parameter is set, the others are kept.\<close>

fun with_arg :: "opt_name \<Rightarrow> bool option \<Rightarrow> opts_args \<Rightarrow> opts_args" where
  "with_arg GENERATE_AUTO_INLINES v a = a\<lparr>generate_auto_inlines := v\<rparr>"
| "with_arg INLINE_FUNCTIONS v a = a\<lparr>inline_functions := v\<rparr>"
| "with_arg WARN_ON_SHADOWED_NAME v a = a\<lparr>warn_on_shadowed_name := v\<rparr>"
| "with_arg WARN_ON_SHADOWED_VAR v a = a\<lparr>warn_on_shadowed_var := v\<rparr>"
| "with_arg WARN_ON_UNUSED_NAMES v a = a\<lparr>warn_on_unused_names := v\<rparr>"
| "with_arg WARN_ON_NON_DYNAMIC_SET v a = a\<lparr>warn_on_non_dynamic_set := v\<rparr>"
| "with_arg USE_VAR_INDIRECTION v a = a\<lparr>use_var_indirection := v\<rparr>"
| "with_arg WARN_ON_VAR_INDIRECTION v a = a\<lparr>warn_on_var_indirection := v\<rparr>"

text \<open>The default documented for each option: the right operand of its \<^verbatim>\<open>or\<close>.\<close>

fun documented_default :: "opt_name \<Rightarrow> bool" where
  "documented_default GENERATE_AUTO_INLINES = True"
| "documented_default INLINE_FUNCTIONS = True"
| "documented_default WARN_ON_SHADOWED_NAME = False"
| "documented_default WARN_ON_SHADOWED_VAR = False"
| "documented_default WARN_ON_UNUSED_NAMES = True"
| "documented_default WARN_ON_NON_DYNAMIC_SET = True"
| "documented_default USE_VAR_INDIRECTION = False"
| "documented_default WARN_ON_VAR_INDIRECTION = True"


section \<open>Failures and stateful computations\<close>

text \<open>
  Exceptions are values. \<^verbatim>\<open>AttributeError\<close> and \<^verbatim>\<open>KeyError\<close> are the two that the
  drivers' own statements can raise (\<^verbatim>\<open>getattr\<close> on the module, \<^verbatim>\<open>del\<close> on its
  dictionary); everything raised by a collaborator is \<open>External\<close>.
\<close>

datatype 'e exn = AttributeError string | KeyError string | External 'e

text \<open>
  A statement runs in a state and ends either normally (\<open>Inr\<close>) or by raising
  (\<open>Inl\<close>); in both cases the state it leaves is kept, since nothing is rolled back.
\<close>

type_synonym ('s, 'e, 'a) prog = "'s \<Rightarrow> ('e exn + 'a) \<times> 's"

definition returnM :: "'a \<Rightarrow> ('s, 'e, 'a) prog" where
  "returnM x s = (Inr x, s)"

definition bindM :: "('s, 'e, 'a) prog \<Rightarrow> ('a \<Rightarrow> ('s, 'e, 'b) prog) \<Rightarrow> ('s, 'e, 'b) prog" where
  "bindM m k s = (case m s of (Inl e, s') \<Rightarrow> (Inl e, s') | (Inr x, s') \<Rightarrow> k x s')"

text \<open>
  \<^verbatim>\<open>try: body finally: fin\<close>. The \<^verbatim>\<open>finally\<close> block runs whatever the body did; when it
  raises, its exception replaces the body's outcome.
\<close>

definition try_finally :: "('s, 'e, 'a) prog \<Rightarrow> ('s, 'e, unit) prog \<Rightarrow> ('s, 'e, 'a) prog" where
  "try_finally body fin s =
     (case body s of (r, s1) \<Rightarrow>
        (case fin s1 of (Inl e, s2) \<Rightarrow> (Inl e, s2) | (Inr u, s2) \<Rightarrow> (r, s2)))"

text \<open>A step that computes a result, or raises, without touching the state.\<close>

definition stateless :: "'e exn + 'a \<Rightarrow> ('s, 'e, 'a) prog" where
  "stateless r s = (r, s)"

section \<open>Data model\<close>

text \<open>Python values: \<^verbatim>\<open>None\<close> or some other object.\<close>

datatype 'v pyval = PyNone | PyObj 'v

text \<open>
  What loaded code and the collaborators can read and write: the binding table
  \<^verbatim>\<open>ns.module.__dict__\<close> and the rest of the running process (analyzer and generator
  sessions, the name counter, dynamic Vars, standard output).
\<close>

record ('v, 'x) runtime =
  bindings :: "string \<rightharpoonup> 'v pyval"
  world :: 'x

text \<open>
  The events of a driver run, in the order they happen: a loadable unit came out of
  \<^verbatim>\<open>compile\<close>, a unit is handed to the collector, \<^verbatim>\<open>exec\<close> of a unit starts, the
  \<^verbatim>\<open>try\<close> block that looks up and calls the wrapper is entered.
\<close>

datatype 'u event = Compile 'u | Report 'u | Exec 'u | Invoke string

text \<open>
  Modelled from the spec: the class \<^verbatim>\<open>runtime.Namespace\<close> is not in this file. A
  namespace is "a mutable binding table and a one-bit bootstrapped flag", and "the core
  only reads/sets the flag": the state of the namespace \<^verbatim>\<open>ns\<close> every driver receives is
  its runtime, the flag \<^verbatim>\<open>ns.module.__basilisp_bootstrapped__\<close>, which no collaborator
  touches, and the event history of the run, which only the drivers extend.
\<close>

record ('v, 'x, 'u) state =
  rt :: "('v, 'x) runtime"
  bootstrapped :: bool
  log :: "'u event list"

text \<open>\<^verbatim>\<open>GeneratedPyAST\<close>: a main node and the statements it depends on.\<close>

record 'a GeneratedPyAST =
  node :: 'a
  dependencies :: "'a list"

text \<open>
  Modelled from the spec: the classes \<^verbatim>\<open>AnalyzerContext\<close> and \<^verbatim>\<open>GeneratorContext\<close>
  are not in this file. A session is constructed from a filename and the options and
  "carries the source identifier"; \<^verbatim>\<open>filename\<close> is the only attribute read here. What a
  session accumulates lives in the \<open>world\<close>.
\<close>

record session =
  session_filename :: string
  session_opts :: "CompilerOpts option"

text \<open>\<^verbatim>\<open>CompilerContext\<close>, its four slots read through the four properties.\<close>

record 'o CompilerContext =
  filename :: string
  analyzer_context :: session
  generator_context :: session
  py_ast_optimizer :: 'o

definition CompilerContext_init :: "'o \<Rightarrow> string \<Rightarrow> CompilerOpts option \<Rightarrow> 'o CompilerContext" where
  "CompilerContext_init new_optimizer fname opts =
     \<lparr>filename = fname,
      analyzer_context = \<lparr>session_filename = fname, session_opts = opts\<rparr>,
      generator_context = \<lparr>session_filename = fname, session_opts = opts\<rparr>,
      py_ast_optimizer = new_optimizer\<rparr>"

text \<open>
  The collaborators this file imports or calls and does not define, taken as parameters:
  \<^verbatim>\<open>genname\<close>, the analyzer, the generator (\<^verbatim>\<open>gen_py_ast\<close>, \<^verbatim>\<open>py_module_preamble\<close>,
  \<^verbatim>\<open>statementize\<close>, \<^verbatim>\<open>expressionize\<close>), the optimizer's \<^verbatim>\<open>visit\<close>, Python's
  \<^verbatim>\<open>ast.fix_missing_locations\<close>, \<^verbatim>\<open>compile\<close>, \<^verbatim>\<open>exec\<close>, calling a value,
  \<^verbatim>\<open>os.environ\<close>, \<^verbatim>\<open>print\<close>, \<^verbatim>\<open>ast.unparse\<close> and the two runtime functions behind
  the diagnostic output. Those that run user or library code work on the runtime and
  may raise.
\<close>

record ('f, 'l, 'a, 'u, 'v, 'e, 'x, 'o) host =
  genname :: "string \<Rightarrow> ('v, 'x) runtime \<Rightarrow> string \<times> ('v, 'x) runtime"
  analyze_form :: "session \<Rightarrow> 'f option \<Rightarrow> (('v, 'x) runtime, 'e, 'l) prog"
  gen_py_ast :: "session \<Rightarrow> 'l \<Rightarrow> (('v, 'x) runtime, 'e, 'a GeneratedPyAST) prog"
  py_module_preamble :: "(('v, 'x) runtime, 'e, 'a GeneratedPyAST) prog"
  statementize :: "'a \<Rightarrow> 'a"
  expressionize :: "'a GeneratedPyAST \<Rightarrow> string \<Rightarrow> 'a"
  visit :: "'o \<Rightarrow> 'a list \<Rightarrow> 'e exn + 'a list"
  fix_missing_locations :: "'a list \<Rightarrow> 'a list"
  compile :: "'a list \<Rightarrow> string \<Rightarrow> 'e exn + 'u"
  exec :: "'u \<Rightarrow> (('v, 'x) runtime, 'e, unit) prog"
  call :: "'v pyval \<Rightarrow> (('v, 'x) runtime, 'e, 'v pyval) prog"
  environ :: "string \<rightharpoonup> string"
  print_generated_python :: "('v, 'x) runtime \<Rightarrow> bool"
  print :: "string \<Rightarrow> (('v, 'x) runtime, 'e, unit) prog"
  add_generated_python :: "string \<Rightarrow> (('v, 'x) runtime, 'e, unit) prog"
  unparse :: "'a list \<Rightarrow> string"

text \<open>A collaborator step inside a driver: it sees and changes the runtime only.\<close>

definition in_ns :: "(('v, 'x) runtime, 'e, 'a) prog \<Rightarrow> (('v, 'x, 'u) state, 'e, 'a) prog" where
  "in_ns m s = (case m (rt s) of (r, w) \<Rightarrow> (r, s\<lparr>rt := w\<rparr>))"

definition trace :: "'u event \<Rightarrow> (('v, 'x, 'u) state, 'e, unit) prog" where
  "trace ev s = (Inr (), s\<lparr>log := log s @ [ev]\<rparr>)"

text \<open>The units produced, collected and started, read off a history.\<close>

fun compiled :: "'u event list \<Rightarrow> 'u list" where
  "compiled [] = []"
| "compiled (Compile u # evs) = u # compiled evs"
| "compiled (ev # evs) = compiled evs"

fun collected :: "'u event list \<Rightarrow> 'u list" where
  "collected [] = []"
| "collected (Report u # evs) = u # collected evs"
| "collected (ev # evs) = collected evs"

fun executed :: "'u event list \<Rightarrow> 'u list" where
  "executed [] = []"
| "executed (Exec u # evs) = u # executed evs"
| "executed (ev # evs) = executed evs"

text \<open>
  In a history, every start of an execution comes directly after the hand-over of the
  same unit to the collector.
\<close>

fun collect_precedes_exec :: "'u event list \<Rightarrow> bool" where
  "collect_precedes_exec [] = True"
| "collect_precedes_exec (Report u # Exec u' # evs) = (u = u' \<and> collect_precedes_exec evs)"
| "collect_precedes_exec (Exec u # evs) = False"
| "collect_precedes_exec (ev # evs) = collect_precedes_exec evs"

text \<open>The events a run added to the history it started with.\<close>

definition new_events :: "('v, 'x, 'u) state \<Rightarrow> ('v, 'x, 'u) state \<Rightarrow> 'u event list" where
  "new_events s s' = drop (length (log s)) (log s')"

section \<open>The drivers\<close>

definition DEFAULT_FN :: string where
  "DEFAULT_FN = ''__lisp_expr__''"

text \<open>\<^verbatim>\<open>to_py_str\<close>, the definition for Python 3.9 and later.\<close>

definition to_py_str :: "('f, 'l, 'a, 'u, 'v, 'e, 'x, 'o) host \<Rightarrow> 'a list \<Rightarrow> string" where
  "to_py_str h t = unparse h t @ [CHR 0x0A, CHR 0x0A]"

text \<open>\<^verbatim>\<open>os.getenv(key, default)\<close>.\<close>

definition os_getenv :: "('f, 'l, 'a, 'u, 'v, 'e, 'x, 'o) host \<Rightarrow> string \<Rightarrow> string \<Rightarrow> string" where
  "os_getenv h k d = (case environ h k of None \<Rightarrow> d | Some v \<Rightarrow> v)"

definition emit_ast_string ::
  "('f, 'l, 'a, 'u, 'v, 'e, 'x, 'o) host \<Rightarrow> 'a list \<Rightarrow> (('v, 'x) runtime, 'e, unit) prog" where
  "emit_ast_string h module =
     (if os_getenv h ''BASILISP_EMIT_GENERATED_PYTHON'' ''true'' \<noteq> ''true'' then returnM ()
      else (\<lambda>w. if print_generated_python h w then print h (to_py_str h module) w
                else add_generated_python h (to_py_str h module) w))"

text \<open>\<^verbatim>\<open>if collect_bytecode: collect_bytecode(bytecode)\<close>.\<close>

definition run_collector ::
  "('u \<Rightarrow> (('v, 'x) runtime, 'e, unit) prog) option \<Rightarrow> 'u \<Rightarrow> (('v, 'x, 'u) state, 'e, unit) prog" where
  "run_collector collect_bytecode bytecode =
     (case collect_bytecode of
        None \<Rightarrow> returnM ()
      | Some c \<Rightarrow> bindM (trace (Report bytecode)) (\<lambda>_. in_ns (c bytecode)))"

definition incremental_compile_module ::
  "('f, 'l, 'a, 'u, 'v, 'e, 'x, 'o) host \<Rightarrow> 'o \<Rightarrow> 'a GeneratedPyAST \<Rightarrow> string \<Rightarrow>
   ('u \<Rightarrow> (('v, 'x) runtime, 'e, unit) prog) option \<Rightarrow> (('v, 'x, 'u) state, 'e, unit) prog" where
  "incremental_compile_module h optimizer py_ast source_filename collect_bytecode =
     (let module_body = map (statementize h) (dependencies py_ast @ [node py_ast]) in
      bindM (stateless (visit h optimizer module_body)) (\<lambda>module.
      let module = fix_missing_locations h module in
      bindM (in_ns (emit_ast_string h module)) (\<lambda>_.
      bindM (stateless (compile h module source_filename)) (\<lambda>bytecode.
      bindM (trace (Compile bytecode)) (\<lambda>_.
      bindM (run_collector collect_bytecode bytecode) (\<lambda>_.
      bindM (trace (Exec bytecode)) (\<lambda>_.
      in_ns (exec h bytecode))))))))"

definition set_bootstrapped :: "(('v, 'x, 'u) state, 'e, unit) prog" where
  "set_bootstrapped s = (Inr (), s\<lparr>bootstrapped := True\<rparr>)"

definition bootstrap_module ::
  "('f, 'l, 'a, 'u, 'v, 'e, 'x, 'o) host \<Rightarrow> session \<Rightarrow> 'o \<Rightarrow>
   ('u \<Rightarrow> (('v, 'x) runtime, 'e, unit) prog) option \<Rightarrow> (('v, 'x, 'u) state, 'e, unit) prog" where
  "bootstrap_module h gctx optimizer collect_bytecode =
     bindM (in_ns (py_module_preamble h)) (\<lambda>preamble.
     bindM (incremental_compile_module h optimizer preamble (session_filename gctx)
              collect_bytecode) (\<lambda>_.
     set_bootstrapped))"

text \<open>\<^verbatim>\<open>getattr(ns.module, name)\<close> for a name that only the module's dictionary can hold.\<close>

definition getattr_module :: "string \<Rightarrow> (('v, 'x, 'u) state, 'e, 'v pyval) prog" where
  "getattr_module name s =
     (case bindings (rt s) name of
        None \<Rightarrow> (Inl (AttributeError name), s)
      | Some v \<Rightarrow> (Inr v, s))"

text \<open>\<^verbatim>\<open>del ns.module.__dict__[name]\<close>.\<close>

definition del_binding :: "string \<Rightarrow> (('v, 'x, 'u) state, 'e, unit) prog" where
  "del_binding name s =
     (case bindings (rt s) name of
        None \<Rightarrow> (Inl (KeyError name), s)
      | Some v \<Rightarrow> (Inr (), s\<lparr>rt := (rt s)\<lparr>bindings := (bindings (rt s))(name := None)\<rparr>\<rparr>))"

definition compile_and_exec_form ::
  "('f, 'l, 'a, 'u, 'v, 'e, 'x, 'o) host \<Rightarrow> 'f option \<Rightarrow> 'o CompilerContext \<Rightarrow> string \<Rightarrow>
   ('u \<Rightarrow> (('v, 'x) runtime, 'e, unit) prog) option \<Rightarrow> (('v, 'x, 'u) state, 'e, 'v pyval) prog" where
  "compile_and_exec_form h form ctx wrapped_fn_name collect_bytecode =
     (case form of None \<Rightarrow> returnM PyNone
      | Some _ \<Rightarrow>
      bindM (\<lambda>s. if \<not> bootstrapped s
                 then bootstrap_module h (generator_context ctx) (py_ast_optimizer ctx) None s
                 else returnM () s) (\<lambda>_.
      bindM (in_ns (\<lambda>w. case genname h wrapped_fn_name w of (n, w') \<Rightarrow> (Inr n, w')))
        (\<lambda>final_wrapped_name.
      bindM (in_ns (analyze_form h (analyzer_context ctx) form)) (\<lambda>lisp_ast.
      bindM (in_ns (gen_py_ast h (generator_context ctx) lisp_ast)) (\<lambda>py_ast.
      let form_ast = map (statementize h)
            (dependencies py_ast @
             [expressionize h \<lparr>node = node py_ast, dependencies = []\<rparr> final_wrapped_name]) in
      bindM (stateless (visit h (py_ast_optimizer ctx) form_ast)) (\<lambda>ast_module.
      let ast_module = fix_missing_locations h ast_module in
      bindM (in_ns (emit_ast_string h ast_module)) (\<lambda>_.
      bindM (stateless (compile h ast_module (filename ctx))) (\<lambda>bytecode.
      bindM (trace (Compile bytecode)) (\<lambda>_.
      bindM (run_collector collect_bytecode bytecode) (\<lambda>_.
      bindM (trace (Exec bytecode)) (\<lambda>_.
      bindM (in_ns (exec h bytecode)) (\<lambda>_.
      try_finally
        (bindM (trace (Invoke final_wrapped_name)) (\<lambda>_.
         bindM (getattr_module final_wrapped_name) (\<lambda>wrapper.
         in_ns (call h wrapper))))
        (del_binding final_wrapped_name)))))))))))))"

text \<open>The loop \<^verbatim>\<open>for form in forms\<close> of \<^verbatim>\<open>compile_module\<close>.\<close>

fun compile_forms ::
  "('f, 'l, 'a, 'u, 'v, 'e, 'x, 'o) host \<Rightarrow> 'o CompilerContext \<Rightarrow>
   ('u \<Rightarrow> (('v, 'x) runtime, 'e, unit) prog) option \<Rightarrow> 'f option list \<Rightarrow>
   (('v, 'x, 'u) state, 'e, unit) prog" where
  "compile_forms h ctx collect_bytecode [] = returnM ()"
| "compile_forms h ctx collect_bytecode (form # forms) =
     bindM (in_ns (analyze_form h (analyzer_context ctx) form)) (\<lambda>lisp_ast.
     bindM (in_ns (gen_py_ast h (generator_context ctx) lisp_ast)) (\<lambda>nodes.
     bindM (incremental_compile_module h (py_ast_optimizer ctx) nodes (filename ctx)
              collect_bytecode) (\<lambda>_.
     compile_forms h ctx collect_bytecode forms)))"

definition compile_module ::
  "('f, 'l, 'a, 'u, 'v, 'e, 'x, 'o) host \<Rightarrow> 'f option list \<Rightarrow> 'o CompilerContext \<Rightarrow>
   ('u \<Rightarrow> (('v, 'x) runtime, 'e, unit) prog) option \<Rightarrow> (('v, 'x, 'u) state, 'e, unit) prog" where
  "compile_module h forms ctx collect_bytecode =
     bindM (bootstrap_module h (generator_context ctx) (py_ast_optimizer ctx) None) (\<lambda>_.
     compile_forms h ctx collect_bytecode forms)"

text \<open>The loop \<^verbatim>\<open>for bytecode in code\<close> of \<^verbatim>\<open>compile_bytecode\<close>.\<close>

fun exec_each ::
  "('f, 'l, 'a, 'u, 'v, 'e, 'x, 'o) host \<Rightarrow> 'u list \<Rightarrow> (('v, 'x, 'u) state, 'e, unit) prog" where
  "exec_each h [] = returnM ()"
| "exec_each h (bytecode # code) =
     bindM (trace (Exec bytecode)) (\<lambda>_.
     bindM (in_ns (exec h bytecode)) (\<lambda>_.
     exec_each h code))"

definition compile_bytecode ::
  "('f, 'l, 'a, 'u, 'v, 'e, 'x, 'o) host \<Rightarrow> 'u list \<Rightarrow> session \<Rightarrow> 'o \<Rightarrow>
   (('v, 'x, 'u) state, 'e, unit) prog" where
  "compile_bytecode h code gctx optimizer =
     bindM (bootstrap_module h gctx optimizer None) (\<lambda>_.
     exec_each h code)"


text \<open>
  The events one evaluated form can add after the bootstrap guard, by how far the run
  got: nothing, a unit produced and reported, its execution started, the wrapper's
  \<^verbatim>\<open>try\<close> block entered. In the last case the wrapper's name \<open>n\<close> came from
  \<^verbatim>\<open>genname\<close>, is unbound in the final state, and a value returned is the value the
  call returned.
\<close>

definition form_trace ::
  "('f, 'l, 'a, 'u, 'v, 'e, 'x, 'o) host \<Rightarrow> string \<Rightarrow> 'c option \<Rightarrow> ('e exn + 'v pyval) \<Rightarrow>
   ('v, 'x, 'u) state \<Rightarrow> 'u event list \<Rightarrow> bool" where
  "form_trace h name c r s' evs \<longleftrightarrow>
     (evs = [] \<and> isl r) \<or>
     (\<exists>u. evs = [Compile u, Report u] \<and> isl r \<and> c \<noteq> None) \<or>
     (\<exists>u. evs = Compile u # (case c of None \<Rightarrow> [] | Some f \<Rightarrow> [Report u]) @ [Exec u] \<and> isl r) \<or>
     (\<exists>u n. evs = Compile u # (case c of None \<Rightarrow> [] | Some f \<Rightarrow> [Report u]) @ [Exec u, Invoke n]
         \<and> (\<exists>w. n = fst (genname h name w)) \<and> bindings (rt s') n = None
         \<and> (\<forall>v. r = Inr v \<longrightarrow> (\<exists>fn w w'. call h fn w = (Inr v, w'))))"

text \<open>The events of one unit that was produced, reported when a collector is given, and started.\<close>

definition unit_events :: "'u \<Rightarrow> 'c option \<Rightarrow> 'u event list" where
  "unit_events u c = Compile u # (case c of None \<Rightarrow> [] | Some f \<Rightarrow> [Report u]) @ [Exec u]"




section \<open>A small host to run the drivers on\<close>

text \<open>
  Forms are numbers. The form \<open>n\<close> compiles to a unit of assignments \<open>(name, n)\<close>;
  executing a unit stores its assignments; calling the stored number \<open>0\<close> returns
  \<^verbatim>\<open>None\<close>, calling \<open>n + 1\<close> returns \<open>n\<close>. The world is the counter behind \<^verbatim>\<open>genname\<close>.
\<close>

definition toy_exec :: "(string \<times> nat) list \<Rightarrow> ((nat, nat) runtime, string, unit) prog" where
  "toy_exec u w = (Inr (), w\<lparr>bindings := foldl (\<lambda>b (k, v). b(k \<mapsto> PyObj v)) (bindings w) u\<rparr>)"

definition toy_call :: "nat pyval \<Rightarrow> ((nat, nat) runtime, string, nat pyval) prog" where
  "toy_call f w =
     (case f of
        PyNone \<Rightarrow> (Inl (External ''TypeError''), w)
      | PyObj 0 \<Rightarrow> (Inr PyNone, w)
      | PyObj (Suc n) \<Rightarrow> (Inr (PyObj n), w))"

definition toy_host ::
  "(nat, nat, string \<times> nat, (string \<times> nat) list, nat, string, nat, unit) host" where
  "toy_host =
     \<lparr>genname = (\<lambda>p w. (p @ ''_'' @ replicate (world w) (CHR ''i''), w\<lparr>world := Suc (world w)\<rparr>)),
      analyze_form = (\<lambda>actx f w. (Inr (case f of None \<Rightarrow> 0 | Some n \<Rightarrow> n), w)),
      gen_py_ast = (\<lambda>gctx l w. (Inr \<lparr>node = (''it'', l), dependencies = []\<rparr>, w)),
      py_module_preamble = (\<lambda>w. (Inr \<lparr>node = (''__name__'', 0), dependencies = []\<rparr>, w)),
      statementize = (\<lambda>a. a),
      expressionize = (\<lambda>g name. (name, snd (node g))),
      visit = (\<lambda>opt m. Inr m),
      fix_missing_locations = (\<lambda>m. m),
      compile = (\<lambda>m fname. Inr m),
      exec = toy_exec,
      call = toy_call,
      environ = Map.empty,
      print_generated_python = (\<lambda>w. False),
      print = (\<lambda>str w. (Inr (), w)),
      add_generated_python = (\<lambda>str w. (Inr (), w)),
      unparse = (\<lambda>m. [])\<rparr>"

text \<open>The same host with a loader that raises on every unit.\<close>

definition failing_host ::
  "(nat, nat, string \<times> nat, (string \<times> nat) list, nat, string, nat, unit) host" where
  "failing_host = toy_host\<lparr>exec := (\<lambda>u w. (Inl (External ''ImportError''), w))\<rparr>"

definition toy_collector :: "(string \<times> nat) list \<Rightarrow> ((nat, nat) runtime, string, unit) prog" where
  "toy_collector u w = (Inr (), w)"

definition toy_ctx :: "unit CompilerContext" where
  "toy_ctx = CompilerContext_init () ''m.lpy'' None"

definition fresh_ns :: "(nat, nat, (string \<times> nat) list) state" where
  "fresh_ns = \<lparr>rt = \<lparr>bindings = Map.empty, world = 0\<rparr>, bootstrapped = False, log = []\<rparr>"

text \<open>The same host with a loader that raises on the unit of the form \<open>0\<close> only.\<close>

definition picky_host ::
  "(nat, nat, string \<times> nat, (string \<times> nat) list, nat, string, nat, unit) host" where
  "picky_host = toy_host\<lparr>exec := (\<lambda>u w. if u = [(''it'', 0)]
       then (Inl (External ''ZeroDivisionError''), w) else toy_exec u w)\<rparr>"

text \<open>The same host where calling any value raises.\<close>

definition raising_host ::
  "(nat, nat, string \<times> nat, (string \<times> nat) list, nat, string, nat, unit) host" where
  "raising_host = toy_host\<lparr>call := (\<lambda>f w. (Inl (External ''ValueError''), w))\<rparr>"

text \<open>A second fresh namespace, in a process whose name counter has moved on.\<close>

definition other_ns :: "(nat, nat, (string \<times> nat) list) state" where
  "other_ns = \<lparr>rt = \<lparr>bindings = Map.empty, world = 7\<rparr>, bootstrapped = False, log = []\<rparr>"

section \<open>Compiler options: defaults and overrides\<close>

text \<open>
  C4. For every option whose documented default is true, \<^verbatim>\<open>compiler_opts\<close> with an
  explicit \<^verbatim>\<open>False\<close> for that option returns the same options map as with the option
  left out, and in both the option is true: under \<^verbatim>\<open>value or True\<close> an explicit false
  and an absent argument cannot be told apart.
\<close>

theorem explicit_false_same_as_absent:
  "documented_default k \<Longrightarrow>
     compiler_opts (with_arg k (Some False) a) = compiler_opts (with_arg k None a)
     \<and> compiler_opts (with_arg k (Some False) a) k = Some True
     \<and> compiler_opts (with_arg k None a) k = Some True"
  by (cases k) (simp_all add: compiler_opts_def)

theorem explicit_false_same_as_absent_witness:
  "documented_default WARN_ON_UNUSED_NAMES
   \<and> compiler_opts (no_overrides\<lparr>warn_on_unused_names := Some False\<rparr>) = compiler_opts no_overrides
   \<and> compiler_opts (no_overrides\<lparr>warn_on_unused_names := Some False\<rparr>) WARN_ON_UNUSED_NAMES
       = Some True"
  using explicit_false_same_as_absent [of WARN_ON_UNUSED_NAMES no_overrides]
  by (simp add: no_overrides_def)

text \<open>
  C8. With no overrides \<^verbatim>\<open>compiler_opts\<close> gives every option its fixed default
  (generate-auto-inlines, inline-functions, warn-on-unused-names, warn-on-non-dynamic-set
  and warn-on-var-indirection true; warn-on-shadowed-name, warn-on-shadowed-var and
  use-var-indirection false), and an override for one option leaves the value of every
  other option as it was.
\<close>

theorem defaults_and_independence:
  "compiler_opts no_overrides GENERATE_AUTO_INLINES = Some True
   \<and> compiler_opts no_overrides INLINE_FUNCTIONS = Some True
   \<and> compiler_opts no_overrides WARN_ON_SHADOWED_NAME = Some False
   \<and> compiler_opts no_overrides WARN_ON_SHADOWED_VAR = Some False
   \<and> compiler_opts no_overrides WARN_ON_UNUSED_NAMES = Some True
   \<and> compiler_opts no_overrides WARN_ON_NON_DYNAMIC_SET = Some True
   \<and> compiler_opts no_overrides USE_VAR_INDIRECTION = Some False
   \<and> compiler_opts no_overrides WARN_ON_VAR_INDIRECTION = Some True
   \<and> (\<forall>k k' v a. k' \<noteq> k \<longrightarrow> compiler_opts (with_arg k v a) k' = compiler_opts a k')"
proof -
  have "compiler_opts (with_arg k v a) k' = compiler_opts a k'" if "k' \<noteq> k" for k k' v a
    using that by (cases k; cases k') (simp_all add: compiler_opts_def)
  then show ?thesis by (simp add: compiler_opts_def no_overrides_def)
qed

theorem defaults_and_independence_witness:
  "INLINE_FUNCTIONS \<noteq> WARN_ON_SHADOWED_VAR
   \<and> compiler_opts (no_overrides\<lparr>warn_on_shadowed_var := Some True\<rparr>) INLINE_FUNCTIONS
       = compiler_opts no_overrides INLINE_FUNCTIONS
   \<and> compiler_opts (no_overrides\<lparr>warn_on_shadowed_var := Some True\<rparr>) WARN_ON_SHADOWED_VAR
       = Some True
   \<and> compiler_opts no_overrides WARN_ON_SHADOWED_VAR = Some False"
  using defaults_and_independence
  by (simp add: compiler_opts_def no_overrides_def)

section \<open>Reasoning about runs\<close>

lemma bindM_eq:
  "bindM m k s = (r, s') \<longleftrightarrow>
     (\<exists>e. m s = (Inl e, s') \<and> r = Inl e) \<or> (\<exists>x t. m s = (Inr x, t) \<and> k x t = (r, s'))"
  by (auto simp: bindM_def split: prod.splits sum.splits)

lemma in_ns_eq: "in_ns m s = (r, s') \<longleftrightarrow> (\<exists>w. m (rt s) = (r, w) \<and> s' = s\<lparr>rt := w\<rparr>)"
  by (auto simp: in_ns_def split: prod.splits)

lemma stateless_eq: "stateless x s = (r, s') \<longleftrightarrow> r = x \<and> s' = s"
  by (auto simp: stateless_def)

lemma returnM_eq: "returnM x s = (r, s') \<longleftrightarrow> r = Inr x \<and> s' = s"
  by (auto simp: returnM_def)

lemma trace_eq: "trace ev s = (r, s') \<longleftrightarrow> r = Inr () \<and> s' = s\<lparr>log := log s @ [ev]\<rparr>"
  by (auto simp: trace_def)

lemmas step_eqs = bindM_eq in_ns_eq stateless_eq returnM_eq trace_eq

lemmas toy_defs = failing_host_def toy_host_def toy_exec_def toy_call_def toy_collector_def
  toy_ctx_def CompilerContext_init_def fresh_ns_def DEFAULT_FN_def picky_host_def other_ns_def raising_host_def

lemmas run_defs = bootstrap_module_def incremental_compile_module_def compile_and_exec_form_def
  compile_module_def compile_bytecode_def run_collector_def emit_ast_string_def os_getenv_def
  to_py_str_def set_bootstrapped_def getattr_module_def del_binding_def
  bindM_def in_ns_def stateless_def trace_def returnM_def try_finally_def new_events_def


lemma compiled_append: "compiled (a @ b) = compiled a @ compiled b"
  by (induction a rule: compiled.induct) auto

lemma executed_append: "executed (a @ b) = executed a @ executed b"
  by (induction a rule: executed.induct) auto

lemma new_events_self: "new_events s s = []"
  by (simp add: new_events_def)

lemma new_events_append: "log s' = log s @ evs \<Longrightarrow> new_events s s' = evs"
  by (simp add: new_events_def)

lemma fst_witness: "g w = (n, w') \<Longrightarrow> \<exists>w. n = fst (g w)"
  by (metis fst_conv)

subsection \<open>The incremental loader and the bootstrap step\<close>

lemma icm_log:
  assumes "incremental_compile_module h opt p fn c s = (r, s')"
  shows "bootstrapped s' = bootstrapped s \<and>
     (\<exists>evs. log s' = log s @ evs \<and>
        ((evs = [] \<and> isl r) \<or>
         (\<exists>u. evs = Compile u # (case c of None \<Rightarrow> [] | Some f \<Rightarrow> [Report u]) \<and> isl r \<and> c \<noteq> None) \<or>
         (\<exists>u. evs = Compile u # (case c of None \<Rightarrow> [] | Some f \<Rightarrow> [Report u]) @ [Exec u])))"
  using assms unfolding incremental_compile_module_def Let_def
  by (cases c) (auto simp: step_eqs run_collector_def)

lemma bootstrap_flag:
  assumes "bootstrap_module h gctx opt c s = (r, s')"
  shows "(isl r \<longrightarrow> bootstrapped s' = bootstrapped s) \<and> (\<not> isl r \<longrightarrow> bootstrapped s')"
  using assms unfolding bootstrap_module_def
  by (auto simp: step_eqs set_bootstrapped_def dest!: icm_log)

lemma bootstrap_log:
  assumes "bootstrap_module h gctx opt c s = (r, s')"
  shows "\<exists>evs. log s' = log s @ evs \<and> (\<forall>n. Invoke n \<notin> set evs) \<and> (c = None \<longrightarrow> collected evs = [])"
  using assms unfolding bootstrap_module_def
  by (cases c) (auto simp: step_eqs set_bootstrapped_def dest!: icm_log)

text \<open>
  C6. When the bootstrap step fails, the failure is the one raised while generating the
  preamble or while assembling, compiling and loading it, passed on unchanged, and the
  namespace's bootstrapped flag keeps the value it had, so a later call can bootstrap
  again. The flag is set to true only when the preamble has been generated and loaded
  without a failure.
\<close>

theorem bootstrap_failure_leaves_flag:
  assumes "bootstrap_module h gctx opt c s = (r, s')"
  shows "case r of
           Inl e \<Rightarrow> bootstrapped s' = bootstrapped s \<and>
             (in_ns (py_module_preamble h) s = (Inl e, s') \<or>
              (\<exists>pre t. in_ns (py_module_preamble h) s = (Inr pre, t) \<and>
                 incremental_compile_module h opt pre (session_filename gctx) c t = (Inl e, s')))
         | Inr x \<Rightarrow> bootstrapped s' \<and>
             (\<exists>pre t t'. in_ns (py_module_preamble h) s = (Inr pre, t) \<and>
                 incremental_compile_module h opt pre (session_filename gctx) c t = (Inr (), t') \<and>
                 s' = t'\<lparr>bootstrapped := True\<rparr>)"
proof (cases r)
  case (Inl e)
  with assms bootstrap_flag[OF assms] show ?thesis
    unfolding bootstrap_module_def by (auto simp: step_eqs set_bootstrapped_def)
next
  case (Inr x)
  with assms show ?thesis
    unfolding bootstrap_module_def by (auto simp: step_eqs set_bootstrapped_def)
qed

theorem bootstrap_failure_leaves_flag_witness:
  "bootstrap_module failing_host (generator_context toy_ctx) () None fresh_ns
     = (Inl (External ''ImportError''),
        fresh_ns\<lparr>log := [Compile [(''__name__'', 0)], Exec [(''__name__'', 0)]]\<rparr>)
   \<and> \<not> bootstrapped (fresh_ns\<lparr>log := [Compile [(''__name__'', 0)], Exec [(''__name__'', 0)]]\<rparr>)"
  using bootstrap_failure_leaves_flag [of failing_host "generator_context toy_ctx" "()" None
      fresh_ns "Inl (External ''ImportError'')"
      "fresh_ns\<lparr>log := [Compile [(''__name__'', 0)], Exec [(''__name__'', 0)]]\<rparr>"]
  by (simp add: toy_defs run_defs)

subsection \<open>Evaluating one form\<close>

lemma try_finally_removes:
  assumes "try_finally (bindM (trace (Invoke n)) (\<lambda>_. bindM (getattr_module n) (\<lambda>fn. in_ns (call h fn))))
             (del_binding n) s = (r, s')"
  shows "bindings (rt s') n = None \<and> log s' = log s @ [Invoke n] \<and> bootstrapped s' = bootstrapped s
     \<and> (\<forall>v. r = Inr v \<longrightarrow> (\<exists>fn w w'. call h fn w = (Inr v, w')))"
  using assms
  by (auto simp: try_finally_def del_binding_def getattr_module_def bindM_def in_ns_def trace_def
      split: prod.splits sum.splits option.splits)

lemma cef_shape_boot:
  assumes "compile_and_exec_form h (Some f) ctx name c s = (r, s')" and "bootstrapped s"
  shows "bootstrapped s' \<and> (\<exists>evs. log s' = log s @ evs \<and> form_trace h name c r s' evs)"
  using assms unfolding compile_and_exec_form_def Let_def form_trace_def
  by (cases c)
     (auto simp: step_eqs run_collector_def split: prod.splits dest!: try_finally_removes
           intro: fst_witness)

lemma cef_unboot:
  assumes "\<not> bootstrapped s"
  shows "compile_and_exec_form h (Some f) ctx name c s =
     (case bootstrap_module h (generator_context ctx) (py_ast_optimizer ctx) None s of
        (Inl e, s0) \<Rightarrow> (Inl e, s0)
      | (Inr x, s0) \<Rightarrow> compile_and_exec_form h (Some f) ctx name c s0)"
proof -
  let ?guard = "\<lambda>s. if \<not> bootstrapped s
                 then bootstrap_module h (generator_context ctx) (py_ast_optimizer ctx) None s
                 else returnM () s"
  obtain rb sb where
    B: "bootstrap_module h (generator_context ctx) (py_ast_optimizer ctx) None s = (rb, sb)"
    by fastforce
  show ?thesis
  proof (cases rb)
    case (Inl e)
    with B assms show ?thesis
      by (simp add: compile_and_exec_form_def bindM_def[of ?guard])
  next
    case (Inr x)
    with B bootstrap_flag[OF B] have "bootstrapped sb" by simp
    with B assms Inr show ?thesis
      by (simp add: compile_and_exec_form_def bindM_def[of ?guard] returnM_def)
  qed
qed

lemma cef_shape:
  assumes "compile_and_exec_form h (Some f) ctx name c s = (r, s')"
  defines "s0 \<equiv> (if bootstrapped s then s
                 else snd (bootstrap_module h (generator_context ctx) (py_ast_optimizer ctx) None s))"
  shows "\<exists>evsB evs. log s0 = log s @ evsB \<and> (\<forall>n. Invoke n \<notin> set evsB) \<and> collected evsB = []
           \<and> log s' = log s0 @ evs \<and> form_trace h name c r s' evs"
    and "bootstrapped s \<Longrightarrow> bootstrapped s'" and "\<not> isl r \<Longrightarrow> bootstrapped s'"
proof -
  have "(\<exists>evsB evs. log s0 = log s @ evsB \<and> (\<forall>n. Invoke n \<notin> set evsB) \<and> collected evsB = []
           \<and> log s' = log s0 @ evs \<and> form_trace h name c r s' evs)
       \<and> (bootstrapped s \<longrightarrow> bootstrapped s') \<and> (\<not> isl r \<longrightarrow> bootstrapped s')"
  proof (cases "bootstrapped s")
    case True
    then have "s0 = s" by (simp add: s0_def)
    with cef_shape_boot[OF assms(1) True] True show ?thesis by simp
  next
    case False
    obtain rb sb where
      B: "bootstrap_module h (generator_context ctx) (py_ast_optimizer ctx) None s = (rb, sb)"
      by fastforce
    with False have s0: "s0 = sb" by (simp add: s0_def)
    from bootstrap_log[OF B] obtain evsB where
      L: "log s0 = log s @ evsB" "\<forall>n. Invoke n \<notin> set evsB" "collected evsB = []"
      by (auto simp: s0)
    show ?thesis
    proof (cases rb)
      case (Inl e)
      with B assms(1) False have "r = Inl e" "s' = sb" by (simp_all add: cef_unboot)
      then have "log s' = log s0 @ []" "form_trace h name c r s' []"
        by (simp_all add: s0 form_trace_def)
      moreover from \<open>r = Inl e\<close> have "isl r" by simp
      ultimately show ?thesis using L False by blast
    next
      case (Inr x)
      with B bootstrap_flag[OF B] have bs: "bootstrapped sb" by simp
      from Inr B assms(1) False have "compile_and_exec_form h (Some f) ctx name c sb = (r, s')"
        by (simp add: cef_unboot)
      from cef_shape_boot[OF this bs] L s0 False show ?thesis by blast
    qed
  qed
  then show "\<exists>evsB evs. log s0 = log s @ evsB \<and> (\<forall>n. Invoke n \<notin> set evsB) \<and> collected evsB = []
           \<and> log s' = log s0 @ evs \<and> form_trace h name c r s' evs"
    and "bootstrapped s \<Longrightarrow> bootstrapped s'" and "\<not> isl r \<Longrightarrow> bootstrapped s'" by blast+
qed

text \<open>
  C9. \<^verbatim>\<open>compile_and_exec_form\<close> with the absent form \<^verbatim>\<open>None\<close> returns \<^verbatim>\<open>None\<close> and
  leaves the namespace exactly as it was: nothing is analysed or generated, no wrapper
  is bound, the bootstrap step is not run and the flag is not touched.
\<close>

theorem absent_form_is_noop: "compile_and_exec_form h None ctx name c s = (Inr PyNone, s)"
  by (simp add: compile_and_exec_form_def returnM_def)

text \<open>
  C5. Whenever \<^verbatim>\<open>compile_and_exec_form\<close> has entered the \<^verbatim>\<open>try\<close> block that looks up
  and calls the wrapper, the name generated for the wrapper is unbound in the namespace's
  binding table when the call is over, whether it returned a value or raised; and every
  run that returns the value of a form has entered that block.
\<close>

theorem wrapper_binding_removed:
  assumes "compile_and_exec_form h form ctx name c s = (r, s')"
  shows "(\<forall>n. Invoke n \<in> set (new_events s s') \<longrightarrow>
            bindings (rt s') n = None \<and> (\<exists>w. n = fst (genname h name w)))
       \<and> (\<forall>v. form \<noteq> None \<and> r = Inr v \<longrightarrow> (\<exists>n. Invoke n \<in> set (new_events s s')))"
proof (cases form)
  case None
  with assms have "s' = s" "r = Inr PyNone"
    by (simp_all add: compile_and_exec_form_def returnM_def)
  with None show ?thesis by (simp add: new_events_self)
next
  case (Some f)
  from cef_shape(1)[OF assms[unfolded Some]] obtain evsB evs where
    E: "new_events s s' = evsB @ evs" "\<forall>n. Invoke n \<notin> set evsB" "form_trace h name c r s' evs"
    by (auto simp: new_events_def)
  from E(3) have "(\<forall>n. Invoke n \<in> set evs \<longrightarrow>
            bindings (rt s') n = None \<and> (\<exists>w. n = fst (genname h name w)))
       \<and> (\<forall>v. r = Inr v \<longrightarrow> (\<exists>n. Invoke n \<in> set evs))"
    unfolding form_trace_def by (cases c) auto
  with E(1,2) show ?thesis by auto
qed

theorem wrapper_binding_removed_witness:
  "compile_and_exec_form toy_host (Some 4) toy_ctx DEFAULT_FN None fresh_ns
     = (Inr (PyObj 3),
        \<lparr>rt = \<lparr>bindings = [''__name__'' \<mapsto> PyObj 0], world = 1\<rparr>, bootstrapped = True,
         log = [Compile [(''__name__'', 0)], Exec [(''__name__'', 0)],
                Compile [(''__lisp_expr___'', 4)], Exec [(''__lisp_expr___'', 4)],
                Invoke ''__lisp_expr___'']\<rparr>)
   \<and> compile_and_exec_form raising_host (Some 4) toy_ctx DEFAULT_FN None fresh_ns
     = (Inl (External ''ValueError''),
        \<lparr>rt = \<lparr>bindings = [''__name__'' \<mapsto> PyObj 0], world = 1\<rparr>, bootstrapped = True,
         log = [Compile [(''__name__'', 0)], Exec [(''__name__'', 0)],
                Compile [(''__lisp_expr___'', 4)], Exec [(''__lisp_expr___'', 4)],
                Invoke ''__lisp_expr___'']\<rparr>)
   \<and> [''__name__'' \<mapsto> PyObj (0::nat)] ''__lisp_expr___'' = None"
  using wrapper_binding_removed [of toy_host "Some 4" toy_ctx DEFAULT_FN None fresh_ns
      "Inr (PyObj 3)"
      "\<lparr>rt = \<lparr>bindings = [''__name__'' \<mapsto> PyObj 0], world = 1\<rparr>, bootstrapped = True,
         log = [Compile [(''__name__'', 0)], Exec [(''__name__'', 0)],
                Compile [(''__lisp_expr___'', 4)], Exec [(''__lisp_expr___'', 4)],
                Invoke ''__lisp_expr___'']\<rparr>"]
    wrapper_binding_removed [of raising_host "Some 4" toy_ctx DEFAULT_FN None fresh_ns
      "Inl (External ''ValueError'')"
      "\<lparr>rt = \<lparr>bindings = [''__name__'' \<mapsto> PyObj 0], world = 1\<rparr>, bootstrapped = True,
         log = [Compile [(''__name__'', 0)], Exec [(''__name__'', 0)],
                Compile [(''__lisp_expr___'', 4)], Exec [(''__lisp_expr___'', 4)],
                Invoke ''__lisp_expr___'']\<rparr>"]
  by (simp add: toy_defs run_defs fun_upd_twist)

subsection \<open>The loop over the forms of a module\<close>

lemma unit_events_facts:
  "collected (unit_events u c @ evs) = (case c of None \<Rightarrow> [] | Some f \<Rightarrow> [u]) @ collected evs"
  "compiled (unit_events u c @ evs) = u # compiled evs"
  "executed (unit_events u c @ evs) = u # executed evs"
  "c \<noteq> None \<Longrightarrow> collect_precedes_exec (unit_events u c @ evs) = collect_precedes_exec evs"
  "Invoke n \<notin> set (unit_events u c)"
  by (cases c; simp add: unit_events_def)+

lemma compile_forms_Cons_cases:
  assumes "compile_forms h ctx c (f # fs) s = (r, s')"
  shows "(isl r \<and> bootstrapped s' = bootstrapped s \<and>
          (\<exists>evs. log s' = log s @ evs \<and>
             (evs = [] \<or> (\<exists>u. evs = [Compile u, Report u] \<and> c \<noteq> None) \<or> (\<exists>u. evs = unit_events u c))))
       \<or> (\<exists>t u. compile_forms h ctx c fs t = (r, s') \<and> bootstrapped t = bootstrapped s \<and>
             log t = log s @ unit_events u c)"
  using assms unfolding unit_events_def
  by (cases c) (auto simp: step_eqs dest!: icm_log)

lemma compile_forms_log:
  "compile_forms h ctx c fs s = (r, s') \<Longrightarrow>
     bootstrapped s' = bootstrapped s \<and>
     (\<exists>evs. log s' = log s @ evs \<and> (\<forall>n. Invoke n \<notin> set evs)
        \<and> (c \<noteq> None \<longrightarrow> collected evs = compiled evs \<and> collect_precedes_exec evs)
        \<and> (\<not> isl r \<longrightarrow> executed evs = compiled evs \<and> length (compiled evs) = length fs))"
proof (induction fs arbitrary: s)
  case Nil
  then show ?case by (simp add: returnM_def)
next
  case (Cons f fs)
  from compile_forms_Cons_cases[OF Cons.prems]
  consider (stop) evs where "isl r" "bootstrapped s' = bootstrapped s" "log s' = log s @ evs"
      "evs = [] \<or> (\<exists>u. evs = [Compile u, Report u] \<and> c \<noteq> None) \<or> (\<exists>u. evs = unit_events u c)"
    | (go) t u where "compile_forms h ctx c fs t = (r, s')" "bootstrapped t = bootstrapped s"
       "log t = log s @ unit_events u c"
    by blast
  then show ?case
  proof cases
    case stop
    from stop(4) have "(\<forall>n. Invoke n \<notin> set evs)
        \<and> (c \<noteq> None \<longrightarrow> collected evs = compiled evs \<and> collect_precedes_exec evs)"
      by (cases c) (auto simp: unit_events_def)
    with stop(1,2,3) show ?thesis by blast
  next
    case t: go
    from Cons.IH[OF t(1)] obtain evs where
      e: "bootstrapped s' = bootstrapped t" "log s' = log t @ evs" "\<forall>n. Invoke n \<notin> set evs"
         "c \<noteq> None \<longrightarrow> collected evs = compiled evs \<and> collect_precedes_exec evs"
         "\<not> isl r \<longrightarrow> executed evs = compiled evs \<and> length (compiled evs) = length fs"
      by blast
    have "log s' = log s @ (unit_events u c @ evs)" using e(2) t(3) by simp
    moreover have "\<forall>n. Invoke n \<notin> set (unit_events u c @ evs)" using e(3) by (simp add: unit_events_facts(5))
    moreover have "c \<noteq> None \<longrightarrow> collected (unit_events u c @ evs) = compiled (unit_events u c @ evs)
         \<and> collect_precedes_exec (unit_events u c @ evs)"
      using e(4) by (cases c) (simp_all add: unit_events_facts del: append_Cons)
    moreover have "\<not> isl r \<longrightarrow> executed (unit_events u c @ evs) = compiled (unit_events u c @ evs)
          \<and> length (compiled (unit_events u c @ evs)) = length (f # fs)"
      using e(5) by (simp add: unit_events_facts)
    ultimately show ?thesis using e(1) t(2) by (intro conjI exI[of _ "unit_events u c @ evs"]) simp_all
  qed
qed






subsection \<open>Bootstrapping more than once\<close>





subsection \<open>The value returned for a form\<close>



subsection \<open>Order of loading and abort on failure\<close>

lemma bindM_assoc: "bindM (bindM m k) k' = bindM m (\<lambda>x. bindM (k x) k')"
  by (intro ext) (simp add: bindM_def split: prod.splits sum.splits)

lemma bindM_return: "bindM (returnM x) k = k x"
  by (intro ext) (simp add: bindM_def returnM_def)

lemma bindM_return_right: "bindM m (\<lambda>x. returnM ()) = m" for m :: "('s, 'e, unit) prog"
  by (intro ext) (auto simp: bindM_def returnM_def split: prod.splits sum.splits)

lemma compile_forms_append:
  "compile_forms h ctx c (fs @ gs) = bindM (compile_forms h ctx c fs) (\<lambda>_. compile_forms h ctx c gs)"
  by (induction fs) (simp_all add: bindM_return bindM_assoc)

text \<open>
  C7. \<^verbatim>\<open>compile_module\<close> handles the forms strictly in the order given: the form at
  any position is analysed, generated and loaded in exactly the state that loading all
  forms before it has left; when the bootstrap step or an earlier form fails, or this
  form fails, the run ends with that failure and the state reached at that moment, the
  later forms are not touched and nothing already loaded is undone. A run that returns
  has produced and executed one unit for the preamble and one for every form, in order.
\<close>

theorem forms_loaded_in_order:
  "compile_module h (fs @ g # gs) ctx c s =
     (case compile_module h fs ctx c s of
        (Inl e, s1) \<Rightarrow> (Inl e, s1)
      | (Inr x, s1) \<Rightarrow>
          (case compile_forms h ctx c [g] s1 of
             (Inl e, s2) \<Rightarrow> (Inl e, s2)
           | (Inr y, s2) \<Rightarrow> compile_forms h ctx c gs s2))
   \<and> (compile_module h forms ctx c s = (Inr z, s') \<longrightarrow>
        executed (new_events s s') = compiled (new_events s s')
        \<and> length (compiled (new_events s s')) = Suc (length forms))"
proof (intro conjI impI)
  have "compile_forms h ctx c (fs @ g # gs) =
      bindM (compile_forms h ctx c fs) (\<lambda>_. bindM (compile_forms h ctx c [g]) (\<lambda>_. compile_forms h ctx c gs))"
    using compile_forms_append[of h ctx c fs "[g] @ gs"] compile_forms_append[of h ctx c "[g]" gs]
    by simp
  then show "compile_module h (fs @ g # gs) ctx c s =
     (case compile_module h fs ctx c s of
        (Inl e, s1) \<Rightarrow> (Inl e, s1)
      | (Inr x, s1) \<Rightarrow>
          (case compile_forms h ctx c [g] s1 of
             (Inl e, s2) \<Rightarrow> (Inl e, s2)
           | (Inr y, s2) \<Rightarrow> compile_forms h ctx c gs s2))"
    unfolding compile_module_def
    by (simp add: bindM_def split: prod.splits sum.splits)
next
  assume M: "compile_module h forms ctx c s = (Inr z, s')"
  then obtain sb where B: "bootstrap_module h (generator_context ctx) (py_ast_optimizer ctx) None s = (Inr (), sb)"
    and C: "compile_forms h ctx c forms sb = (Inr z, s')"
    by (auto simp: compile_module_def bindM_eq)
  from B obtain u where "log sb = log s @ [Compile u, Exec u]"
    unfolding bootstrap_module_def
    by (auto simp: step_eqs set_bootstrapped_def dest!: icm_log)
  moreover from compile_forms_log[OF C] obtain evs where
    "log s' = log sb @ evs" "executed evs = compiled evs" "length (compiled evs) = length forms"
    by auto
  ultimately have "new_events s s' = [Compile u, Exec u] @ evs \<and> executed evs = compiled evs
      \<and> length (compiled evs) = length forms"
    by (simp add: new_events_def)
  then show "executed (new_events s s') = compiled (new_events s s')"
    and "length (compiled (new_events s s')) = Suc (length forms)" by simp_all
qed

theorem forms_loaded_in_order_witness:
  "compile_module picky_host ([Some 3] @ Some 0 # [Some 1]) toy_ctx None fresh_ns
     = (Inl (External ''ZeroDivisionError''),
        \<lparr>rt = \<lparr>bindings = [''__name__'' \<mapsto> PyObj 0, ''it'' \<mapsto> PyObj 3], world = 0\<rparr>,
         bootstrapped = True,
         log = [Compile [(''__name__'', 0)], Exec [(''__name__'', 0)],
                Compile [(''it'', 3)], Exec [(''it'', 3)],
                Compile [(''it'', 0)], Exec [(''it'', 0)]]\<rparr>)
   \<and> compile_module picky_host [Some 3] toy_ctx None fresh_ns
     = (Inr (),
        \<lparr>rt = \<lparr>bindings = [''__name__'' \<mapsto> PyObj 0, ''it'' \<mapsto> PyObj 3], world = 0\<rparr>,
         bootstrapped = True,
         log = [Compile [(''__name__'', 0)], Exec [(''__name__'', 0)],
                Compile [(''it'', 3)], Exec [(''it'', 3)]]\<rparr>)
   \<and> length (compiled (new_events fresh_ns (snd (compile_module picky_host [Some 3] toy_ctx None fresh_ns))))
     = Suc (length [Some (3::nat)])"
  using forms_loaded_in_order [of picky_host "[Some 3]" "Some 0" "[Some 1]" toy_ctx None fresh_ns
      "[Some 3]" "()" "snd (compile_module picky_host [Some 3] toy_ctx None fresh_ns)"]
  by (simp add: toy_defs run_defs picky_host_def)

subsection \<open>Replaying collected units\<close>














end
